theory Spec2Isabelle
  imports Main
begin

section \<open>Notification data (src/services/websocket.ts, lines 170-190)\<close>

text \<open>
  The interfaces \<^verbatim>\<open>NotificationData\<close> and \<^verbatim>\<open>UnreadCountData\<close>. A JavaScript
  \<^verbatim>\<open>number\<close> that holds an identifier or a count is an \<open>int\<close>; an optional field is an
  \<open>option\<close>. The fields \<^verbatim>\<open>id\<close> and \<^verbatim>\<open>type\<close> are \<open>id_n\<close> and \<open>type_n\<close> here, since
  \<open>id\<close> is a constant of HOL.
\<close>

record sender_info =
  sender_id :: int
  username :: string
  full_name :: string
  profile_picture :: "string option"

record NotificationData =
  id_n :: int
  type_n :: string
  message :: string
  sender :: sender_info
  painting_id :: "int option"
  comment_id :: "int option"
  rating_id :: "int option"
  is_read :: bool
  created_at :: string

section \<open>The browser and the WebSocketService (src/services/websocket.ts)\<close>

text \<open>
  A \<^verbatim>\<open>WebSocket\<close> object is an entry of the list \<open>sockets\<close>; a reference to it is its
  index. The object lives on after the service has dropped its reference, and its four
  handlers, which close over \<^verbatim>\<open>this\<close> and over nothing else, stay attached to it.
\<close>

datatype readyState = CONNECTING | OPEN | CLOSING | CLOSED

record socket =
  readyState :: readyState
  url_userId :: int
  url_token :: string

text \<open>The messages the service writes to a socket (the argument of \<^verbatim>\<open>send\<close>).\<close>

datatype outbound = get_notifications | mark_read int | mark_all_read

text \<open>
  The second argument of \<^verbatim>\<open>emit\<close> (\<^verbatim>\<open>data: any\<close>): \<^verbatim>\<open>null\<close> on open, the code and
  reason of a close event, an error, or the \<^verbatim>\<open>data\<close> field of a decoded server message.
\<close>

datatype payload =
    Null
  | CloseInfo int string
  | ErrorInfo string
  | NotificationP NotificationData
  | UnreadCountP int
  | NotificationsListP "NotificationData list"
  | OtherP string

text \<open>
  A registered callback. JavaScript compares functions by identity (\<^verbatim>\<open>indexOf\<close> in
  \<^verbatim>\<open>off\<close>), so a callback carries a reference \<open>ref\<close>, and \<^verbatim>\<open>off\<close> is given the
  reference of the function to remove. While it runs, a callback may change the
  application state \<open>'w\<close> and may call \<^verbatim>\<open>on\<close> and \<^verbatim>\<open>off\<close> of the service. Calling it
  either returns or throws; in both cases the application state it leaves is given, and
  the calls of \<^verbatim>\<open>on\<close> and \<^verbatim>\<open>off\<close> that it made, in their order. The handlers that this
  repository registers (NotificationsContext.tsx, lines 34-71) make no such call. Calls
  of \<^verbatim>\<open>connect\<close>, \<^verbatim>\<open>disconnect\<close> and \<^verbatim>\<open>send\<close> from inside a callback are not modelled.
\<close>

datatype 'c registry_call = CallOn string 'c | CallOff string nat

datatype ('w, 'c) completion =
    Returns 'w "'c registry_call list"
  | Throws string 'w "'c registry_call list"

datatype 'w callback =
  Callback (ref: nat) (call: "payload \<Rightarrow> 'w \<Rightarrow> ('w, 'w callback) completion")

fun world_after :: "('w, 'c) completion \<Rightarrow> 'w" where
  "world_after (Returns w cs) = w"
| "world_after (Throws e w cs) = w"

fun calls_made :: "('w, 'c) completion \<Rightarrow> 'c registry_call list" where
  "calls_made (Returns w cs) = cs"
| "calls_made (Throws e w cs) = cs"

fun unregisters :: "string \<Rightarrow> 'c registry_call \<Rightarrow> bool" where
  "unregisters event (CallOff ev r) = (ev = event)"
| "unregisters event (CallOn ev cb) = False"

datatype log_level = Warn | Error

text \<open>
  The state: the six fields of the class, the part of the browser the class talks to
  (socket objects, frames handed to \<^verbatim>\<open>WebSocket.send\<close>, pending timeouts with their due
  time on a clock in milliseconds, \<^verbatim>\<open>console.warn\<close> and \<^verbatim>\<open>console.error\<close> output), and
  the application state \<open>app\<close> the registered callbacks act on.
\<close>

record 'w system =
  ws :: "nat option"
  reconnectTimer :: "nat option"
  listeners :: "string \<rightharpoonup> 'w callback list"
  userId :: "int option"
  token :: "string option"
  isConnecting :: bool
  sockets :: "socket list"
  wire :: "(nat \<times> outbound) list"
  timers :: "(nat \<times> nat) list"
  nextTimer :: nat
  now :: nat
  console :: "(log_level \<times> string) list"
  app :: 'w

text \<open>The field initialisers and the constructor (lines 3-18), in a fresh page.\<close>

definition init :: "'w \<Rightarrow> 'w system" where
  "init w = \<lparr> ws = None, reconnectTimer = None,
     listeners = [''notification'' \<mapsto> [], ''unread_count'' \<mapsto> [],
                  ''notifications_list'' \<mapsto> [], ''connect'' \<mapsto> [],
                  ''disconnect'' \<mapsto> [], ''error'' \<mapsto> []],
     userId = None, token = None, isConnecting = False,
     sockets = [], wire = [], timers = [], nextTimer = 1, now = 0, console = [],
     app = w \<rparr>"

text \<open>
  JavaScript truthiness of \<^verbatim>\<open>this.userId\<close> (\<^verbatim>\<open>number | null\<close>) and of \<^verbatim>\<open>this.token\<close>
  (\<^verbatim>\<open>string | null\<close>): \<^verbatim>\<open>null\<close>, \<^verbatim>\<open>0\<close> and the empty string are falsy.
\<close>

definition truthy_number :: "int option \<Rightarrow> bool" where
  "truthy_number v = (case v of None \<Rightarrow> False | Some n \<Rightarrow> n \<noteq> 0)"

definition truthy_string :: "string option \<Rightarrow> bool" where
  "truthy_string v = (case v of None \<Rightarrow> False | Some t \<Rightarrow> t \<noteq> [])"

text \<open>\<^verbatim>\<open>this.ws && this.ws.readyState === WebSocket.OPEN\<close> (lines 21, 92, 163).\<close>

definition isConnected_ws :: "'w system \<Rightarrow> bool" where
  "isConnected_ws s =
     (case ws s of None \<Rightarrow> False
      | Some k \<Rightarrow> k < length (sockets s) \<and> readyState (sockets s ! k) = OPEN)"

definition set_readyState :: "nat \<Rightarrow> readyState \<Rightarrow> 'w system \<Rightarrow> 'w system" where
  "set_readyState k r s = s\<lparr>sockets := (sockets s)[k := (sockets s ! k)\<lparr>readyState := r\<rparr>]\<rparr>"

text \<open>
  \<^verbatim>\<open>WebSocket.close\<close>: a socket that is connecting or open starts closing; its close event
  comes later. On a socket that is closing or closed the call does nothing.
\<close>

definition close_socket :: "nat \<Rightarrow> 'w system \<Rightarrow> 'w system" where
  "close_socket k s =
     (if k < length (sockets s) \<and> readyState (sockets s ! k) \<in> {CONNECTING, OPEN}
      then set_readyState k CLOSING s else s)"

text \<open>
  \<^verbatim>\<open>clearReconnectTimer\<close> (lines 142-147). A timeout handle is never falsy, so the test
  is one for \<^verbatim>\<open>null\<close>; \<^verbatim>\<open>clearTimeout\<close> drops the pending timeout with that handle.
\<close>

definition clearReconnectTimer :: "'w system \<Rightarrow> 'w system" where
  "clearReconnectTimer s =
     (case reconnectTimer s of
        None \<Rightarrow> s
      | Some h \<Rightarrow> s\<lparr>timers := filter (\<lambda>t. fst t \<noteq> h) (timers s), reconnectTimer := None\<rparr>)"

text \<open>\<^verbatim>\<open>send\<close> (lines 91-97): written to the socket if it is open, dropped with a warning otherwise.\<close>

definition send :: "outbound \<Rightarrow> 'w system \<Rightarrow> 'w system" where
  "send m s =
     (case ws s of
        None \<Rightarrow> s\<lparr>console := console s @ [(Warn, ''WebSocket not connected, cannot send message:'')]\<rparr>
      | Some k \<Rightarrow>
          if k < length (sockets s) \<and> readyState (sockets s ! k) = OPEN
          then s\<lparr>wire := wire s @ [(k, m)]\<rparr>
          else s\<lparr>console := console s @ [(Warn, ''WebSocket not connected, cannot send message:'')]\<rparr>)"

text \<open>\<^verbatim>\<open>on\<close> (lines 100-105): the callback is pushed at the end of the array of its event.\<close>

definition on :: "string \<Rightarrow> 'w callback \<Rightarrow> 'w system \<Rightarrow> 'w system" where
  "on event cb s =
     (let s1 = (if listeners s event = None then s\<lparr>listeners := (listeners s)(event \<mapsto> [])\<rparr> else s)
      in case listeners s1 event of
           None \<Rightarrow> s1
         | Some eventListeners \<Rightarrow> s1\<lparr>listeners := (listeners s1)(event \<mapsto> eventListeners @ [cb])\<rparr>)"

text \<open>\<^verbatim>\<open>off\<close> (lines 107-115): \<^verbatim>\<open>indexOf\<close> finds the first occurrence, \<^verbatim>\<open>splice\<close> removes it.\<close>

fun splice_first :: "nat \<Rightarrow> 'w callback list \<Rightarrow> 'w callback list" where
  "splice_first r [] = []"
| "splice_first r (cb # cbs) = (if ref cb = r then cbs else cb # splice_first r cbs)"

definition off :: "string \<Rightarrow> nat \<Rightarrow> 'w system \<Rightarrow> 'w system" where
  "off event r s =
     (case listeners s event of
        None \<Rightarrow> s
      | Some eventListeners \<Rightarrow>
          s\<lparr>listeners := (listeners s)(event \<mapsto> splice_first r eventListeners)\<rparr>)"

text \<open>
  \<^verbatim>\<open>emit\<close> (lines 117-128). The arrow function given to \<^verbatim>\<open>forEach\<close> is \<open>invoke\<close>: the
  call of the callback inside \<^verbatim>\<open>try\<close>/\<^verbatim>\<open>catch\<close>; what the callback did before it threw
  stays done, and the error is logged. \<open>perform\<close> carries out the calls of \<^verbatim>\<open>on\<close> and
  \<^verbatim>\<open>off\<close> that the callback made.
\<close>

fun perform :: "'w callback registry_call list \<Rightarrow> 'w system \<Rightarrow> 'w system" where
  "perform [] s = s"
| "perform (CallOn event cb # cs) s = perform cs (on event cb s)"
| "perform (CallOff event r # cs) s = perform cs (off event r s)"

definition invoke :: "'w callback \<Rightarrow> payload \<Rightarrow> 'w system \<Rightarrow> 'w system" where
  "invoke cb d s =
     (case call cb d (app s) of
        Returns w cs \<Rightarrow> perform cs (s\<lparr>app := w\<rparr>)
      | Throws e w cs \<Rightarrow>
          (let s1 = perform cs (s\<lparr>app := w\<rparr>)
           in s1\<lparr>console := console s1 @ [(Error, ''Error in WebSocket event callback:'')]\<rparr>))"

text \<open>
  \<^verbatim>\<open>Array.prototype.forEach\<close> reads the length of the array once, before the first
  call, and then visits the indices below it in order. At each index it looks into the
  array as it is at that moment: \<^verbatim>\<open>on\<close> pushes to this very array and \<^verbatim>\<open>off\<close> splices
  it in place (the map never replaces the array of a name). An index that the array no
  longer has is passed over. \<open>forEach n k\<close> is the loop with \<open>n\<close> indices still to visit,
  the next one being \<open>k\<close>.
\<close>

fun forEach :: "nat \<Rightarrow> nat \<Rightarrow> string \<Rightarrow> payload \<Rightarrow> 'w system \<Rightarrow> 'w system" where
  "forEach 0 k event d s = s"
| "forEach (Suc n) k event d s =
     forEach n (Suc k) event d
       (case listeners s event of
          None \<Rightarrow> s
        | Some eventListeners \<Rightarrow>
            if k < length eventListeners then invoke (eventListeners ! k) d s else s)"

definition emit :: "string \<Rightarrow> payload \<Rightarrow> 'w system \<Rightarrow> 'w system" where
  "emit event d s =
     (case listeners s event of
        None \<Rightarrow> s
      | Some eventListeners \<Rightarrow> forEach (length eventListeners) 0 event d s)"

text \<open>
  \<^verbatim>\<open>connect\<close> (lines 20-78). Whether \<^verbatim>\<open>new WebSocket(wsUrl)\<close> returns or throws is the
  browser's choice, given as \<open>ctor\<close>. The handlers assigned at lines 35-71 are the functions
  \<open>onopen\<close>, \<open>onmessage\<close>, \<open>onclose\<close> and \<open>onerror\<close> below.
\<close>

datatype ctor_result = Constructed | CtorThrows string

definition connect :: "int \<Rightarrow> string \<Rightarrow> ctor_result \<Rightarrow> 'w system \<Rightarrow> 'w system" where
  "connect uid tok ctor s =
     (if isConnecting s \<or> isConnected_ws s then s
      else
        let s1 = s\<lparr>userId := Some uid, token := Some tok, isConnecting := True\<rparr>
        in case ctor of
             Constructed \<Rightarrow>
               s1\<lparr>ws := Some (length (sockets s1)),
                  sockets := sockets s1 @
                    [\<lparr>readyState = CONNECTING, url_userId = uid, url_token = tok\<rparr>]\<rparr>
           | CtorThrows e \<Rightarrow>
               emit ''error'' (ErrorInfo e)
                 (s1\<lparr>isConnecting := False,
                     console := console s1 @ [(Error, ''Error creating WebSocket connection:'')]\<rparr>))"

text \<open>\<^verbatim>\<open>disconnect\<close> (lines 80-89).\<close>

definition disconnect :: "'w system \<Rightarrow> 'w system" where
  "disconnect s =
     (let s1 = clearReconnectTimer s;
          s2 = s1\<lparr>userId := None, token := None\<rparr>
      in case ws s2 of
           None \<Rightarrow> s2
         | Some k \<Rightarrow> (close_socket k s2)\<lparr>ws := None\<rparr>)"

text \<open>
  The callback given to \<^verbatim>\<open>setTimeout\<close> (lines 134-139) and \<^verbatim>\<open>scheduleReconnect\<close>
  (lines 130-140): the timeout is due 3000 ms after the clock's present value.
\<close>

definition reconnect_callback :: "ctor_result \<Rightarrow> 'w system \<Rightarrow> 'w system" where
  "reconnect_callback ctor s =
     (if truthy_number (userId s) \<and> truthy_string (token s)
      then (case (userId s, token s) of
              (Some uid, Some tok) \<Rightarrow> connect uid tok ctor s
            | _ \<Rightarrow> s)
      else s)"

definition scheduleReconnect :: "'w system \<Rightarrow> 'w system" where
  "scheduleReconnect s =
     (let s1 = clearReconnectTimer s;
          h = nextTimer s1
      in s1\<lparr>reconnectTimer := Some h,
            timers := timers s1 @ [(h, now s1 + 3000)],
            nextTimer := Suc h\<rparr>)"

text \<open>The four socket handlers (lines 35-43, 45-53, 55-65, 67-71).\<close>

definition onopen :: "'w system \<Rightarrow> 'w system" where
  "onopen s =
     send get_notifications
       (emit ''connect'' Null (clearReconnectTimer (s\<lparr>isConnecting := False\<rparr>)))"

text \<open>
  A frame is text that \<^verbatim>\<open>JSON.parse\<close> rejects (or that parses to a value without
  properties), or a message with its \<^verbatim>\<open>type\<close> and \<^verbatim>\<open>data\<close>.
\<close>

datatype frame = Malformed | Message string payload

definition onmessage :: "frame \<Rightarrow> 'w system \<Rightarrow> 'w system" where
  "onmessage f s =
     (case f of
        Malformed \<Rightarrow> s\<lparr>console := console s @ [(Error, ''Error parsing WebSocket message:'')]\<rparr>
      | Message ty d \<Rightarrow> emit ty d s)"

definition onclose :: "int \<Rightarrow> string \<Rightarrow> 'w system \<Rightarrow> 'w system" where
  "onclose code reason s =
     (let s1 = emit ''disconnect'' (CloseInfo code reason) (s\<lparr>isConnecting := False, ws := None\<rparr>)
      in if code \<noteq> 1000 \<and> truthy_number (userId s1) \<and> truthy_string (token s1)
         then scheduleReconnect s1 else s1)"

definition onerror :: "string \<Rightarrow> 'w system \<Rightarrow> 'w system" where
  "onerror e s =
     emit ''error'' (ErrorInfo e)
       (s\<lparr>isConnecting := False, console := console s @ [(Error, ''WebSocket error:'')]\<rparr>)"

text \<open>The utility methods (lines 150-160).\<close>

definition markNotificationAsRead :: "int \<Rightarrow> 'w system \<Rightarrow> 'w system" where
  "markNotificationAsRead notificationId s = send (mark_read notificationId) s"

definition markAllNotificationsAsRead :: "'w system \<Rightarrow> 'w system" where
  "markAllNotificationsAsRead s = send mark_all_read s"

definition getNotifications :: "'w system \<Rightarrow> 'w system" where
  "getNotifications s = send get_notifications s"

subsection \<open>What can happen to the service\<close>

text \<open>
  A call of the public interface, an event the browser delivers to a socket's handler, a
  timeout that fires, or time that passes. The browser opens only a connecting socket,
  delivers messages only on an open one, closes a socket once, and runs a timeout only
  when it is pending and due; an event that cannot happen leaves the state as it is.
\<close>

datatype 'w event =
    Connect int string ctor_result
  | Disconnect
  | Send outbound
  | On string "'w callback"
  | Off string nat
  | SockOpen nat
  | SockMessage nat frame
  | SockError nat string
  | SockClose nat int string
  | TimerFire nat ctor_result
  | Tick nat

fun step :: "'w event \<Rightarrow> 'w system \<Rightarrow> 'w system" where
  "step (Connect uid tok ctor) s = connect uid tok ctor s"
| "step Disconnect s = disconnect s"
| "step (Send m) s = send m s"
| "step (On ev cb) s = on ev cb s"
| "step (Off ev r) s = off ev r s"
| "step (SockOpen k) s =
     (if k < length (sockets s) \<and> readyState (sockets s ! k) = CONNECTING
      then onopen (set_readyState k OPEN s) else s)"
| "step (SockMessage k f) s =
     (if k < length (sockets s) \<and> readyState (sockets s ! k) = OPEN
      then onmessage f s else s)"
| "step (SockError k e) s =
     (if k < length (sockets s) \<and> readyState (sockets s ! k) \<noteq> CLOSED
      then onerror e s else s)"
| "step (SockClose k code reason) s =
     (if k < length (sockets s) \<and> readyState (sockets s ! k) \<noteq> CLOSED
      then onclose code reason (set_readyState k CLOSED s) else s)"
| "step (TimerFire h ctor) s =
     (case map_of (timers s) h of
        None \<Rightarrow> s
      | Some due \<Rightarrow>
          if due \<le> now s
          then reconnect_callback ctor (s\<lparr>timers := filter (\<lambda>t. fst t \<noteq> h) (timers s)\<rparr>)
          else s)"
| "step (Tick dt) s = s\<lparr>now := now s + dt\<rparr>"

fun run :: "'w event list \<Rightarrow> 'w system \<Rightarrow> 'w system" where
  "run [] s = s"
| "run (e # es) s = run es (step e s)"

section \<open>The notification store (src/contexts/NotificationsContext.tsx)\<close>

text \<open>The three pieces of React state of the provider (lines 23-25).\<close>

record store =
  notifications :: "NotificationData list"
  unreadCount :: int
  isConnected :: bool

definition empty_store :: store where
  "empty_store = \<lparr> notifications = [], unreadCount = 0, isConnected = False \<rparr>"

text \<open>
  The handlers registered with the service (lines 34-71), on a payload of the type their
  parameter declares. They set React state and call nothing of the service. The system
  alert that \<^verbatim>\<open>handleNotification\<close> raises after its two state updates is not part of
  the store.
\<close>

definition handleConnect :: "store \<Rightarrow> store" where
  "handleConnect st = st\<lparr>isConnected := True\<rparr>"

definition handleDisconnect :: "store \<Rightarrow> store" where
  "handleDisconnect st = st\<lparr>isConnected := False\<rparr>"

definition handleNotification :: "NotificationData \<Rightarrow> store \<Rightarrow> store" where
  "handleNotification data st =
     st\<lparr>notifications := data # notifications st, unreadCount := unreadCount st + 1\<rparr>"

definition handleUnreadCount :: "int \<Rightarrow> store \<Rightarrow> store" where
  "handleUnreadCount count st = st\<lparr>unreadCount := count\<rparr>"

definition handleNotificationsList :: "NotificationData list \<Rightarrow> store \<Rightarrow> store" where
  "handleNotificationsList data st = st\<lparr>notifications := data\<rparr>"

definition handleError :: "store \<Rightarrow> store" where
  "handleError st = st\<lparr>isConnected := False\<rparr>"

text \<open>
  The state updates of \<^verbatim>\<open>markAsRead\<close> (lines 119-126) and of \<^verbatim>\<open>markAllAsRead\<close>
  (lines 141-145). They are functional updates, so they act on the state that is current
  when they run.
\<close>

definition markAsRead_update :: "int \<Rightarrow> store \<Rightarrow> store" where
  "markAsRead_update notificationId st =
     st\<lparr>notifications :=
          map (\<lambda>notif. if id_n notif = notificationId then notif\<lparr>is_read := True\<rparr> else notif)
            (notifications st),
        unreadCount := max 0 (unreadCount st - 1)\<rparr>"

definition markAllAsRead_update :: "store \<Rightarrow> store" where
  "markAllAsRead_update st =
     st\<lparr>notifications := map (\<lambda>notif. notif\<lparr>is_read := True\<rparr>) (notifications st),
        unreadCount := 0\<rparr>"

text \<open>
  The outcome of an awaited call of the REST client: the promise resolves with a value
  or rejects, and a rejection is the exception that takes \<^verbatim>\<open>markAsRead\<close>,
  \<^verbatim>\<open>markAllAsRead\<close> and \<^verbatim>\<open>refreshNotifications\<close> to their \<^verbatim>\<open>catch\<close> block.
\<close>

datatype 'a rest = Resolved 'a | Rejected

text \<open>
  \<^verbatim>\<open>markAsRead\<close> (lines 110-130) runs in two turns of the event loop: the call sends
  over the socket and starts the REST request; when the request settles the function
  goes on after the \<^verbatim>\<open>await\<close>. \<open>markAsRead\<close> is the two turns with nothing in between.
\<close>

definition markAsRead_call :: "int \<Rightarrow> store system \<Rightarrow> store system" where
  "markAsRead_call notificationId s = markNotificationAsRead notificationId s"

definition markAsRead_settled :: "int \<Rightarrow> unit rest \<Rightarrow> store system \<Rightarrow> store system" where
  "markAsRead_settled notificationId r s =
     (case r of
        Resolved u \<Rightarrow> s\<lparr>app := markAsRead_update notificationId (app s)\<rparr>
      | Rejected \<Rightarrow> s\<lparr>console := console s @ [(Error, ''Error marking notification as read:'')]\<rparr>)"

definition markAsRead :: "int \<Rightarrow> unit rest \<Rightarrow> store system \<Rightarrow> store system" where
  "markAsRead notificationId r s = markAsRead_settled notificationId r (markAsRead_call notificationId s)"

text \<open>\<^verbatim>\<open>markAllAsRead\<close> (lines 132-149), in the same way.\<close>

definition markAllAsRead_call :: "store system \<Rightarrow> store system" where
  "markAllAsRead_call s = markAllNotificationsAsRead s"

definition markAllAsRead_settled :: "unit rest \<Rightarrow> store system \<Rightarrow> store system" where
  "markAllAsRead_settled r s =
     (case r of
        Resolved u \<Rightarrow> s\<lparr>app := markAllAsRead_update (app s)\<rparr>
      | Rejected \<Rightarrow> s\<lparr>console := console s @ [(Error, ''Error marking all notifications as read:'')]\<rparr>)"

definition markAllAsRead :: "unit rest \<Rightarrow> store system \<Rightarrow> store system" where
  "markAllAsRead r s = markAllAsRead_settled r (markAllAsRead_call s)"

text \<open>
  \<^verbatim>\<open>refreshNotifications\<close> (lines 151-165): the list is fetched and stored, then the
  count; a rejection of the first request skips everything after it.
\<close>

definition refreshNotifications ::
  "NotificationData list rest \<Rightarrow> int rest \<Rightarrow> store system \<Rightarrow> store system" where
  "refreshNotifications rl rc s =
     (let s1 = getNotifications s
      in case rl of
           Rejected \<Rightarrow> s1\<lparr>console := console s1 @ [(Error, ''Error refreshing notifications:'')]\<rparr>
         | Resolved apiNotifications \<Rightarrow>
             (let s2 = s1\<lparr>app := handleNotificationsList apiNotifications (app s1)\<rparr>
              in case rc of
                   Rejected \<Rightarrow> s2\<lparr>console := console s2 @ [(Error, ''Error refreshing notifications:'')]\<rparr>
                 | Resolved count \<Rightarrow> s2\<lparr>app := handleUnreadCount count (app s2)\<rparr>))"

subsection \<open>What can happen to the store\<close>

text \<open>
  The store changes when the service calls one of the six handlers and when an awaited
  REST request of \<^verbatim>\<open>markAsRead\<close>, \<^verbatim>\<open>markAllAsRead\<close> or \<^verbatim>\<open>refreshNotifications\<close>
  settles. Each of these runs in a turn of its own, so a session of the store is a list
  of them in the order in which they ran.
\<close>

datatype store_event =
    ConnectEv
  | DisconnectEv
  | ErrorEv
  | NotificationEv NotificationData
  | UnreadCountEv int
  | NotificationsListEv "NotificationData list"
  | MarkAsReadSettled int "unit rest"
  | MarkAllAsReadSettled "unit rest"
  | RefreshListSettled "NotificationData list rest"
  | RefreshCountSettled "int rest"

fun deliver :: "store_event \<Rightarrow> store \<Rightarrow> store" where
  "deliver ConnectEv st = handleConnect st"
| "deliver DisconnectEv st = handleDisconnect st"
| "deliver ErrorEv st = handleError st"
| "deliver (NotificationEv data) st = handleNotification data st"
| "deliver (UnreadCountEv count) st = handleUnreadCount count st"
| "deliver (NotificationsListEv data) st = handleNotificationsList data st"
| "deliver (MarkAsReadSettled notificationId r) st =
     (case r of Resolved u \<Rightarrow> markAsRead_update notificationId st | Rejected \<Rightarrow> st)"
| "deliver (MarkAllAsReadSettled r) st =
     (case r of Resolved u \<Rightarrow> markAllAsRead_update st | Rejected \<Rightarrow> st)"
| "deliver (RefreshListSettled r) st =
     (case r of
        Resolved apiNotifications \<Rightarrow> handleNotificationsList apiNotifications st
      | Rejected \<Rightarrow> st)"
| "deliver (RefreshCountSettled r) st =
     (case r of Resolved count \<Rightarrow> handleUnreadCount count st | Rejected \<Rightarrow> st)"

fun deliver_all :: "store_event list \<Rightarrow> store \<Rightarrow> store" where
  "deliver_all [] st = st"
| "deliver_all (e # es) st = deliver_all es (deliver e st)"

text \<open>The notifications and the count that an event brings from the server.\<close>

fun carried :: "store_event \<Rightarrow> NotificationData list" where
  "carried (NotificationEv data) = [data]"
| "carried (NotificationsListEv data) = data"
| "carried (RefreshListSettled (Resolved data)) = data"
| "carried e = []"

fun reported_count :: "store_event \<Rightarrow> int option" where
  "reported_count (UnreadCountEv count) = Some count"
| "reported_count (RefreshCountSettled (Resolved count)) = Some count"
| "reported_count e = None"

definition count_not_negative :: "store_event \<Rightarrow> bool" where
  "count_not_negative e = (case reported_count e of None \<Rightarrow> True | Some c \<Rightarrow> 0 \<le> c)"

section \<open>Notions used in the properties\<close>

text \<open>The number of unread notifications in the list, and the ids that have an unread entry.\<close>

definition unread_in_list :: "store \<Rightarrow> int" where
  "unread_in_list st = int (length (filter (\<lambda>n. \<not> is_read n) (notifications st)))"

definition unread_ids :: "store \<Rightarrow> int set" where
  "unread_ids st = set (map id_n (filter (\<lambda>n. \<not> is_read n) (notifications st)))"

text \<open>
  Every pending timeout is the one whose handle the service holds, and there is at most
  one.
\<close>

definition timer_inv :: "'w system \<Rightarrow> bool" where
  "timer_inv s =
     (length (timers s) \<le> 1 \<and> (\<forall>t\<in>set (timers s). reconnectTimer s = Some (fst t)))"

text \<open>No identity is stored and no timeout is pending or remembered.\<close>

definition quiet :: "'w system \<Rightarrow> bool" where
  "quiet s = (userId s = None \<and> token s = None \<and> timers s = [] \<and> reconnectTimer s = None)"

text \<open>
  No callback of the list, called with the payload on any application state, calls
  \<^verbatim>\<open>off\<close> for the event.
\<close>

definition keeps_registered :: "string \<Rightarrow> payload \<Rightarrow> 'w callback list \<Rightarrow> bool" where
  "keeps_registered event d cbs =
     (\<forall>cb\<in>set cbs. \<forall>w. \<forall>c\<in>set (calls_made (call cb d w)). \<not> unregisters event c)"

fun is_connect_call :: "'w event \<Rightarrow> bool" where
  "is_connect_call (Connect uid tok ctor) = True"
| "is_connect_call e = False"

fun is_disconnect_call :: "'w event \<Rightarrow> bool" where
  "is_disconnect_call Disconnect = True"
| "is_disconnect_call e = False"

subsection \<open>Data for the examples\<close>

definition example_notification :: "int \<Rightarrow> bool \<Rightarrow> NotificationData" where
  "example_notification i r =
     \<lparr> id_n = i, type_n = ''comment'', message = ''New comment on your painting'',
       sender = \<lparr> sender_id = 3, username = ''ana'', full_name = ''Ana B'',
                  profile_picture = None \<rparr>,
       painting_id = Some 12, comment_id = None, rating_id = None,
       is_read = r, created_at = ''2024-05-01T10:00:00'' \<rparr>"

definition five_notifications :: store where
  "five_notifications =
     \<lparr> notifications = [example_notification 1 False, example_notification 2 True,
                         example_notification 3 False, example_notification 4 True,
                         example_notification 5 False],
       unreadCount = 3, isConnected = True \<rparr>"

definition one_unread :: "store system" where
  "one_unread =
     init \<lparr> notifications = [example_notification 7 False], unreadCount = 1, isConnected = False \<rparr>"

definition one_read :: store where
  "one_read = \<lparr> notifications = [example_notification 7 True], unreadCount = 0, isConnected = True \<rparr>"

text \<open>
  Callbacks that record their call in a list. The first one throws; the third one
  registers the second one once more while it runs; the fourth one unregisters itself
  while it runs, as a handler that is to run once does.
\<close>

definition throwing_listener :: "nat list callback" where
  "throwing_listener = Callback 1 (\<lambda>d w. Throws ''boom'' (w @ [1]) [])"

definition recording_listener :: "nat list callback" where
  "recording_listener = Callback 2 (\<lambda>d w. Returns (w @ [2]) [])"

definition registering_listener :: "nat list callback" where
  "registering_listener =
     Callback 3 (\<lambda>d w. Returns (w @ [3]) [CallOn ''notification'' recording_listener])"

definition once_listener :: "nat list callback" where
  "once_listener = Callback 4 (\<lambda>d w. Returns (w @ [4]) [CallOff ''notification'' 4])"

section \<open>Frame lemmas\<close>

lemma on_frame [simp]:
  "ws (on ev cb s) = ws s"
  "reconnectTimer (on ev cb s) = reconnectTimer s"
  "userId (on ev cb s) = userId s"
  "token (on ev cb s) = token s"
  "isConnecting (on ev cb s) = isConnecting s"
  "sockets (on ev cb s) = sockets s"
  "wire (on ev cb s) = wire s"
  "timers (on ev cb s) = timers s"
  "nextTimer (on ev cb s) = nextTimer s"
  "now (on ev cb s) = now s"
  "app (on ev cb s) = app s"
  "console (on ev cb s) = console s"
  by (simp_all add: on_def Let_def split: option.splits)

lemma off_frame [simp]:
  "ws (off ev r s) = ws s"
  "reconnectTimer (off ev r s) = reconnectTimer s"
  "userId (off ev r s) = userId s"
  "token (off ev r s) = token s"
  "isConnecting (off ev r s) = isConnecting s"
  "sockets (off ev r s) = sockets s"
  "wire (off ev r s) = wire s"
  "timers (off ev r s) = timers s"
  "nextTimer (off ev r s) = nextTimer s"
  "now (off ev r s) = now s"
  "app (off ev r s) = app s"
  "console (off ev r s) = console s"
  by (simp_all add: off_def split: option.splits)

lemma perform_frame [simp]:
  "ws (perform cs s) = ws s"
  "reconnectTimer (perform cs s) = reconnectTimer s"
  "userId (perform cs s) = userId s"
  "token (perform cs s) = token s"
  "isConnecting (perform cs s) = isConnecting s"
  "sockets (perform cs s) = sockets s"
  "wire (perform cs s) = wire s"
  "timers (perform cs s) = timers s"
  "nextTimer (perform cs s) = nextTimer s"
  "now (perform cs s) = now s"
  "app (perform cs s) = app s"
  "console (perform cs s) = console s"
  by (induction cs s rule: perform.induct; simp)+

lemma invoke_frame [simp]:
  "ws (invoke cb d s) = ws s"
  "reconnectTimer (invoke cb d s) = reconnectTimer s"
  "userId (invoke cb d s) = userId s"
  "token (invoke cb d s) = token s"
  "isConnecting (invoke cb d s) = isConnecting s"
  "sockets (invoke cb d s) = sockets s"
  "wire (invoke cb d s) = wire s"
  "timers (invoke cb d s) = timers s"
  "nextTimer (invoke cb d s) = nextTimer s"
  "now (invoke cb d s) = now s"
  by (simp_all add: invoke_def Let_def split: completion.splits)

lemma forEach_frame [simp]:
  "ws (forEach n k ev d s) = ws s"
  "reconnectTimer (forEach n k ev d s) = reconnectTimer s"
  "userId (forEach n k ev d s) = userId s"
  "token (forEach n k ev d s) = token s"
  "isConnecting (forEach n k ev d s) = isConnecting s"
  "sockets (forEach n k ev d s) = sockets s"
  "wire (forEach n k ev d s) = wire s"
  "timers (forEach n k ev d s) = timers s"
  "nextTimer (forEach n k ev d s) = nextTimer s"
  "now (forEach n k ev d s) = now s"
  by (induction n arbitrary: k s; simp split: option.splits)+

lemma emit_frame [simp]:
  "ws (emit ev d s) = ws s"
  "reconnectTimer (emit ev d s) = reconnectTimer s"
  "userId (emit ev d s) = userId s"
  "token (emit ev d s) = token s"
  "isConnecting (emit ev d s) = isConnecting s"
  "sockets (emit ev d s) = sockets s"
  "wire (emit ev d s) = wire s"
  "timers (emit ev d s) = timers s"
  "nextTimer (emit ev d s) = nextTimer s"
  "now (emit ev d s) = now s"
  by (simp_all add: emit_def split: option.splits)

text \<open>
  What \<^verbatim>\<open>emit\<close> does to the application state and to the registry depends on these two
  only.
\<close>

lemma on_listeners_cong:
  "listeners s' = listeners s \<Longrightarrow> listeners (on ev cb s') = listeners (on ev cb s)"
  by (simp add: on_def Let_def split: option.splits)

lemma off_listeners_cong:
  "listeners s' = listeners s \<Longrightarrow> listeners (off ev r s') = listeners (off ev r s)"
  by (simp add: off_def split: option.splits)

lemma perform_listeners_cong:
  "listeners s' = listeners s \<Longrightarrow> listeners (perform cs s') = listeners (perform cs s)"
proof (induction cs s arbitrary: s' rule: perform.induct)
  case (1 s)
  then show ?case by simp
next
  case (2 event cb cs s)
  show ?case using 2(1)[OF on_listeners_cong[OF 2(2)]] by simp
next
  case (3 event r cs s)
  show ?case using 3(1)[OF off_listeners_cong[OF 3(2)]] by simp
qed

lemma invoke_cong:
  assumes "app s' = app s" and "listeners s' = listeners s"
  shows "app (invoke cb d s') = app (invoke cb d s)
    \<and> listeners (invoke cb d s') = listeners (invoke cb d s)"
proof -
  have "listeners (perform cs (s'\<lparr>app := w\<rparr>)) = listeners (perform cs (s\<lparr>app := w\<rparr>))" for cs w
    using assms(2) by (intro perform_listeners_cong) simp
  then show ?thesis
    using assms(1) by (simp add: invoke_def Let_def split: completion.splits)
qed

lemma forEach_cong:
  "app s' = app s \<Longrightarrow> listeners s' = listeners s \<Longrightarrow>
   app (forEach n k ev d s') = app (forEach n k ev d s)
   \<and> listeners (forEach n k ev d s') = listeners (forEach n k ev d s)"
proof (induction n arbitrary: k s s')
  case 0
  then show ?case by simp
next
  case (Suc n)
  let ?v = "\<lambda>s. case listeners s ev of None \<Rightarrow> s
      | Some eventListeners \<Rightarrow>
          if k < length eventListeners then invoke (eventListeners ! k) d s else s"
  have "app (?v s') = app (?v s) \<and> listeners (?v s') = listeners (?v s)"
    using Suc.prems invoke_cong[OF Suc.prems] by (simp split: option.splits)
  then show ?case using Suc.IH[of "?v s'" "?v s" "Suc k"] by simp
qed

lemma emit_cong:
  "app s' = app s \<Longrightarrow> listeners s' = listeners s \<Longrightarrow>
   app (emit ev d s') = app (emit ev d s) \<and> listeners (emit ev d s') = listeners (emit ev d s)"
  using forEach_cong[of s' s _ 0 ev d] by (simp add: emit_def split: option.splits)

text \<open>
  When no callback of the event unregisters a callback of the event, the array of the
  event only grows at its end while the loop runs, and the loop calls the callbacks that
  were registered at its start, one after the other.
\<close>

lemma on_listeners:
  "listeners (on ev cb s)
     = (listeners s)(ev \<mapsto>
         (case listeners s ev of None \<Rightarrow> [] | Some eventListeners \<Rightarrow> eventListeners) @ [cb])"
  by (cases "listeners s ev") (simp_all add: on_def Let_def)

lemma on_keeps_prefix:
  "listeners s event = Some xs \<Longrightarrow> \<exists>ys. listeners (on ev cb s) event = Some (xs @ ys)"
  by (cases "ev = event") (simp_all add: on_listeners)

lemma perform_keeps_prefix:
  "\<forall>c\<in>set cs. \<not> unregisters event c \<Longrightarrow> listeners s event = Some xs \<Longrightarrow>
   \<exists>added. listeners (perform cs s) event = Some (xs @ added)"
proof (induction cs s arbitrary: xs rule: perform.induct)
  case (1 s)
  then show ?case by simp
next
  case (2 ev cb cs s)
  have "\<exists>ys. listeners (on ev cb s) event = Some (xs @ ys)"
    using 2(3) by (rule on_keeps_prefix)
  then obtain ys where "listeners (on ev cb s) event = Some (xs @ ys)" ..
  from 2(1)[OF _ this] 2(2) obtain added
    where "listeners (perform cs (on ev cb s)) event = Some ((xs @ ys) @ added)" by auto
  then show ?case by simp
next
  case (3 ev r cs s)
  have "ev \<noteq> event" using 3(2) by auto
  then have "listeners (off ev r s) event = Some xs"
    using 3(3) by (simp add: off_def split: option.splits)
  from 3(1)[OF _ this] 3(2) show ?case by simp
qed

lemma invoke_keeps_prefix:
  assumes "\<forall>c\<in>set (calls_made (call cb d (app s))). \<not> unregisters event c"
    and "listeners s event = Some xs"
  shows "app (invoke cb d s) = world_after (call cb d (app s))
    \<and> (\<exists>added. listeners (invoke cb d s) event = Some (xs @ added))"
proof (cases "call cb d (app s)")
  case (Returns w cs)
  then show ?thesis
    using assms perform_keeps_prefix[of cs event "s\<lparr>app := w\<rparr>" xs]
    by (simp add: invoke_def)
next
  case (Throws e w cs)
  then show ?thesis
    using assms perform_keeps_prefix[of cs event "s\<lparr>app := w\<rparr>" xs]
    by (simp add: invoke_def Let_def)
qed

lemma forEach_keeps_registered:
  assumes "keeps_registered event d cbs"
  shows "listeners s event = Some (cbs @ added) \<Longrightarrow> k + n = length cbs \<Longrightarrow>
    app (forEach n k event d s)
      = foldl (\<lambda>w cb. world_after (call cb d w)) (app s) (drop k cbs)
    \<and> (\<exists>added'. listeners (forEach n k event d s) event = Some (cbs @ added'))"
proof (induction n arbitrary: k s added)
  case 0
  then show ?case by simp
next
  case (Suc n)
  let ?cb = "cbs ! k"
  have k: "k < length cbs" using Suc.prems(2) by simp
  then have nth: "(cbs @ added) ! k = ?cb" by (simp add: nth_append)
  have "?cb \<in> set cbs" using k by simp
  then have "\<forall>c\<in>set (calls_made (call ?cb d (app s))). \<not> unregisters event c"
    using assms by (simp add: keeps_registered_def)
  from invoke_keeps_prefix[OF this Suc.prems(1)]
  obtain added2 where a: "app (invoke ?cb d s) = world_after (call ?cb d (app s))"
    and l: "listeners (invoke ?cb d s) event = Some (cbs @ (added @ added2))" by auto
  have step: "forEach (Suc n) k event d s = forEach n (Suc k) event d (invoke ?cb d s)"
    using Suc.prems(1) k nth by simp
  have "drop k cbs = ?cb # drop (Suc k) cbs" using k by (simp add: Cons_nth_drop_Suc)
  with Suc.IH[OF l] Suc.prems(2) a step show ?case by simp
qed

lemma emit_keeps_registered:
  assumes "listeners s event = Some cbs" and "keeps_registered event d cbs"
  shows "app (emit event d s) = foldl (\<lambda>w cb. world_after (call cb d w)) (app s) cbs
    \<and> (\<exists>added. listeners (emit event d s) event = Some (cbs @ added))"
  using forEach_keeps_registered[OF assms(2), of s "[]" 0 "length cbs"] assms(1)
  by (simp add: emit_def)

lemma clearReconnectTimer_frame [simp]:
  "ws (clearReconnectTimer s) = ws s"
  "listeners (clearReconnectTimer s) = listeners s"
  "userId (clearReconnectTimer s) = userId s"
  "token (clearReconnectTimer s) = token s"
  "isConnecting (clearReconnectTimer s) = isConnecting s"
  "sockets (clearReconnectTimer s) = sockets s"
  "wire (clearReconnectTimer s) = wire s"
  "nextTimer (clearReconnectTimer s) = nextTimer s"
  "now (clearReconnectTimer s) = now s"
  "app (clearReconnectTimer s) = app s"
  "console (clearReconnectTimer s) = console s"
  by (simp_all add: clearReconnectTimer_def split: option.splits)

lemma send_frame [simp]:
  "ws (send m s) = ws s"
  "reconnectTimer (send m s) = reconnectTimer s"
  "listeners (send m s) = listeners s"
  "userId (send m s) = userId s"
  "token (send m s) = token s"
  "isConnecting (send m s) = isConnecting s"
  "sockets (send m s) = sockets s"
  "timers (send m s) = timers s"
  "nextTimer (send m s) = nextTimer s"
  "now (send m s) = now s"
  "app (send m s) = app s"
  by (simp_all add: send_def split: option.splits)

lemma connect_timers [simp]:
  "timers (connect uid tok c s) = timers s"
  "reconnectTimer (connect uid tok c s) = reconnectTimer s"
  by (simp_all add: connect_def Let_def split: ctor_result.splits)

lemmas service_defs = init_def connect_def disconnect_def send_def emit_def onopen_def onclose_def
  onerror_def onmessage_def scheduleReconnect_def clearReconnectTimer_def reconnect_callback_def
  set_readyState_def close_socket_def isConnected_ws_def truthy_number_def truthy_string_def
  on_def off_def invoke_def Let_def

section \<open>The reconnect timer\<close>

lemma timer_inv_init: "timer_inv (init w)"
  by (simp add: timer_inv_def init_def)

lemma timer_inv_empty: "timers s = [] \<Longrightarrow> timer_inv s"
  by (simp add: timer_inv_def)

lemma timer_inv_cong:
  "timers s' = timers s \<Longrightarrow> reconnectTimer s' = reconnectTimer s \<Longrightarrow> timer_inv s \<Longrightarrow> timer_inv s'"
  by (simp add: timer_inv_def)

lemma clear_timers:
  "timer_inv s \<Longrightarrow>
   timers (clearReconnectTimer s) = [] \<and> reconnectTimer (clearReconnectTimer s) = None"
  by (cases "timers s") (auto simp: timer_inv_def clearReconnectTimer_def split: option.splits)

lemma timer_inv_connect: "timer_inv s \<Longrightarrow> timer_inv (connect uid tok c s)"
  by (erule timer_inv_cong[rotated 2]) simp_all

lemma timer_inv_disconnect: "timer_inv s \<Longrightarrow> timer_inv (disconnect s)"
  by (rule timer_inv_empty)
    (simp add: disconnect_def Let_def close_socket_def set_readyState_def clear_timers
      split: option.splits)

lemma scheduleReconnect_timers:
  "timer_inv s \<Longrightarrow>
   timers (scheduleReconnect s) = [(nextTimer s, now s + 3000)] \<and>
   reconnectTimer (scheduleReconnect s) = Some (nextTimer s)"
  by (simp add: scheduleReconnect_def Let_def clear_timers)

lemma timer_inv_schedule: "timer_inv s \<Longrightarrow> timer_inv (scheduleReconnect s)"
  using scheduleReconnect_timers[of s] by (simp add: timer_inv_def)

lemma timer_inv_onclose: "timer_inv s \<Longrightarrow> timer_inv (onclose code reason s)"
  unfolding onclose_def Let_def
  apply (simp split: if_splits)
  apply (intro conjI impI timer_inv_schedule)
   apply (erule timer_inv_cong[rotated 2]; simp)+
  done

lemma timer_inv_onopen: "timer_inv s \<Longrightarrow> timer_inv (onopen s)"
proof -
  assume "timer_inv s"
  then have "timer_inv (s\<lparr>isConnecting := False\<rparr>)" by (simp add: timer_inv_def)
  then show ?thesis
    by (intro timer_inv_empty) (simp add: onopen_def clear_timers)
qed

lemma timer_inv_step: "timer_inv s \<Longrightarrow> timer_inv (step e s)"
proof (cases e)
  case (Connect uid tok c)
  assume "timer_inv s" then show ?thesis using Connect by (simp add: timer_inv_connect)
next
  case Disconnect
  assume "timer_inv s" then show ?thesis using Disconnect by (simp add: timer_inv_disconnect)
next
  case (Send m)
  assume "timer_inv s" then show ?thesis using Send by (simp add: timer_inv_def)
next
  case (On ev cb)
  assume "timer_inv s" then show ?thesis using On
    by (simp add: timer_inv_def on_def Let_def split: option.splits)
next
  case (Off ev cb)
  assume "timer_inv s" then show ?thesis using Off
    by (simp add: timer_inv_def off_def split: option.splits)
next
  case (SockOpen k)
  assume a: "timer_inv s"
  then have "timer_inv (set_readyState k OPEN s)"
    by (simp add: timer_inv_def set_readyState_def)
  then show ?thesis using SockOpen a by (simp add: timer_inv_onopen)
next
  case (SockMessage k f)
  assume "timer_inv s" then show ?thesis using SockMessage
    by (simp add: timer_inv_def onmessage_def split: frame.splits)
next
  case (SockError k err)
  assume "timer_inv s" then show ?thesis using SockError
    by (simp add: timer_inv_def onerror_def)
next
  case (SockClose k code reason)
  assume a: "timer_inv s"
  then have "timer_inv (set_readyState k CLOSED s)"
    by (simp add: timer_inv_def set_readyState_def)
  then show ?thesis using SockClose a by (simp add: timer_inv_onclose)
next
  case (TimerFire h c)
  assume a: "timer_inv s"
  have "timer_inv (s\<lparr>timers := filter (\<lambda>t. fst t \<noteq> h) (timers s)\<rparr>)"
    using a by (cases "timers s") (auto simp: timer_inv_def)
  then have "timer_inv (reconnect_callback c (s\<lparr>timers := filter (\<lambda>t. fst t \<noteq> h) (timers s)\<rparr>))"
    by (auto simp: reconnect_callback_def timer_inv_connect split: option.splits)
  then show ?thesis using TimerFire a by (simp split: option.splits)
next
  case (Tick dt)
  assume "timer_inv s" then show ?thesis using Tick by (simp add: timer_inv_def)
qed

lemma timer_inv_run: "timer_inv s \<Longrightarrow> timer_inv (run es s)"
  by (induction es arbitrary: s) (simp_all add: timer_inv_step)

text \<open>
  In every state the service can reach, at most one reconnect timeout is pending.
\<close>

lemma at_most_one_pending_timer: "length (timers (run es (init w))) \<le> 1"
  using timer_inv_run[OF timer_inv_init, of es w] by (simp add: timer_inv_def)

text \<open>
  A close event with a code other than 1000, handled while the stored id and credential
  are truthy, leaves exactly one pending timeout, due 3000 ms later whatever came before.
\<close>

lemma abnormal_close_schedules_one:
  assumes "timer_inv s" and "code \<noteq> 1000"
    and "truthy_number (userId s)" and "truthy_string (token s)"
  shows "timers (onclose code reason s) = [(nextTimer s, now s + 3000)]
    \<and> reconnectTimer (onclose code reason s) = Some (nextTimer s)"
proof -
  have "timer_inv (emit ''disconnect'' (CloseInfo code reason) (s\<lparr>isConnecting := False, ws := None\<rparr>))"
    using assms(1) by (simp add: timer_inv_def)
  from scheduleReconnect_timers[OF this] assms(2-4) show ?thesis
    by (simp add: onclose_def Let_def)
qed

text \<open>A pending timeout does not run before it is due.\<close>

lemma timer_not_before_due:
  "map_of (timers s) h = Some due \<Longrightarrow> now s < due \<Longrightarrow> step (TimerFire h c) s = s"
  by simp

text \<open>
  Scenario D of the specification: a close with code 1006, then 3000 ms, then the timeout:
  one new socket for the same identity. After 2999 ms nothing has happened yet.
\<close>

lemma scenario_D:
  "sockets (run [Connect 42 ''tok'' Constructed, SockOpen 0, SockClose 0 1006 '''',
                 Tick 3000, TimerFire 1 Constructed] (init empty_store))
     = [\<lparr>readyState = CLOSED, url_userId = 42, url_token = ''tok''\<rparr>,
        \<lparr>readyState = CONNECTING, url_userId = 42, url_token = ''tok''\<rparr>]"
  "sockets (run [Connect 42 ''tok'' Constructed, SockOpen 0, SockClose 0 1006 '''',
                 Tick 2999, TimerFire 1 Constructed] (init empty_store))
     = [\<lparr>readyState = CLOSED, url_userId = 42, url_token = ''tok''\<rparr>]"
  by (simp_all add: service_defs)

section \<open>The notification store\<close>

text \<open>
  Claim C6. A \<^verbatim>\<open>notifications_list\<close> event replaces the whole list by the snapshot it
  carries and leaves the unread count (and the connection flag) as it was; the count is
  not recomputed from the new list.
\<close>

theorem notifications_list_replaces_list_only:
  "notifications (handleNotificationsList data st) = data
   \<and> unreadCount (handleNotificationsList data st) = unreadCount st
   \<and> isConnected (handleNotificationsList data st) = isConnected st"
  by (simp add: handleNotificationsList_def)

text \<open>
  The example of claim C6: five notifications, three of them unread, and a snapshot of two.
\<close>

theorem notifications_list_replaces_list_only_witness:
  "length (notifications five_notifications) = 5
   \<and> unread_in_list five_notifications = 3
   \<and> unreadCount five_notifications = 3
   \<and> notifications (handleNotificationsList
        [example_notification 8 False, example_notification 9 False] five_notifications)
      = [example_notification 8 False, example_notification 9 False]
   \<and> unreadCount (handleNotificationsList
        [example_notification 8 False, example_notification 9 False] five_notifications) = 3"
  using notifications_list_replaces_list_only
    [of "[example_notification 8 False, example_notification 9 False]" five_notifications]
  by (simp add: five_notifications_def unread_in_list_def example_notification_def)

text \<open>
  Claim C9. When the REST call of \<^verbatim>\<open>markAsRead(id)\<close> succeeds, the unread count goes
  down by one, not below 0, whether or not the list has a notification with that id and
  whether or not that notification was read already. If every notification with that id
  is read already (in particular if there is none), the list stays as it is; so a count
  that agreed with the list and was positive no longer agrees with it afterwards.
\<close>

theorem markAsRead_decrements_without_match:
  "unreadCount (app (markAsRead i (Resolved ()) s)) = max 0 (unreadCount (app s) - 1)
   \<and> ((\<forall>n\<in>set (notifications (app s)). id_n n = i \<longrightarrow> is_read n) \<longrightarrow>
        notifications (app (markAsRead i (Resolved ()) s)) = notifications (app s))
   \<and> (i \<notin> id_n ` set (notifications (app s)) \<and> 0 < unreadCount (app s)
        \<and> unreadCount (app s) = unread_in_list (app s) \<longrightarrow>
        notifications (app (markAsRead i (Resolved ()) s)) = notifications (app s)
        \<and> unreadCount (app (markAsRead i (Resolved ()) s))
            \<noteq> unread_in_list (app (markAsRead i (Resolved ()) s)))"
proof -
  let ?s' = "markAsRead i (Resolved ()) s"
  have same: "notifications (markAsRead_update i st) = notifications st"
    if "\<forall>n\<in>set (notifications st). id_n n = i \<longrightarrow> is_read n" for st
    using that by (simp add: markAsRead_update_def map_idI)
  have app: "app ?s' = markAsRead_update i (app s)"
    by (simp add: markAsRead_def markAsRead_settled_def markAsRead_call_def
        markNotificationAsRead_def)
  have c1: "unreadCount (app ?s') = max 0 (unreadCount (app s) - 1)"
    by (simp add: app markAsRead_update_def)
  have c2: "notifications (app ?s') = notifications (app s)"
    if "\<forall>n\<in>set (notifications (app s)). id_n n = i \<longrightarrow> is_read n"
    using same[OF that] by (simp only: app)
  have c3: "notifications (app ?s') = notifications (app s)
      \<and> unreadCount (app ?s') \<noteq> unread_in_list (app ?s')"
    if "i \<notin> id_n ` set (notifications (app s))" "0 < unreadCount (app s)"
      "unreadCount (app s) = unread_in_list (app s)"
  proof -
    have "\<forall>n\<in>set (notifications (app s)). id_n n = i \<longrightarrow> is_read n"
      using that(1) by auto
    then have l: "notifications (app ?s') = notifications (app s)" by (rule c2)
    then have "unread_in_list (app ?s') = unread_in_list (app s)"
      by (simp only: unread_in_list_def)
    with that(2,3) c1 l show ?thesis by simp
  qed
  from c1 c2 c3 show ?thesis by blast
qed

theorem markAsRead_decrements_without_match_witness:
  "99 \<notin> id_n ` set (notifications (app one_unread))
   \<and> 0 < unreadCount (app one_unread)
   \<and> unreadCount (app one_unread) = unread_in_list (app one_unread)
   \<and> notifications (app (markAsRead 99 (Resolved ()) one_unread)) = notifications (app one_unread)
   \<and> unreadCount (app (markAsRead 99 (Resolved ()) one_unread)) = 0
   \<and> unread_in_list (app (markAsRead 99 (Resolved ()) one_unread)) = 1"
  using markAsRead_decrements_without_match [of 99 one_unread]
  by (simp add: one_unread_def init_def unread_in_list_def example_notification_def)

text \<open>
  Claim C1 as it is stated fails: when the REST call of \<^verbatim>\<open>markAsRead(7)\<close> or of
  \<^verbatim>\<open>markAllAsRead()\<close> is rejected, notification 7 is still unread and the count is still 1.
\<close>

theorem rejected_rest_call_counterexample:
  "id_n (notifications (app (markAsRead 7 Rejected one_unread)) ! 0) = 7
   \<and> \<not> is_read (notifications (app (markAsRead 7 Rejected one_unread)) ! 0)
   \<and> unreadCount (app (markAsRead 7 Rejected one_unread)) = 1
   \<and> \<not> is_read (notifications (app (markAllAsRead Rejected one_unread)) ! 0)
   \<and> unreadCount (app (markAllAsRead Rejected one_unread)) = 1"
  by (simp add: one_unread_def init_def markAsRead_def markAsRead_settled_def markAsRead_call_def
      markNotificationAsRead_def markAllAsRead_def markAllAsRead_settled_def
      markAllAsRead_call_def markAllNotificationsAsRead_def send_def example_notification_def)

text \<open>
  Claim C1, amended. The local update of \<^verbatim>\<open>markAsRead(id)\<close> (the targeted items get
  \<^verbatim>\<open>is_read = true\<close>, the count goes down by one and not below 0) and of
  \<^verbatim>\<open>markAllAsRead()\<close> (all items read, count 0) is applied when the REST call resolves,
  whatever state the socket is in and whether or not the message was written to it. When
  the REST call is rejected the store is left exactly as it was: nothing was applied, so
  nothing is rolled back. The socket is written to in the same way in both cases.
\<close>

theorem local_update_follows_rest_outcome:
  "notifications (app (markAsRead i (Resolved ()) s))
     = map (\<lambda>notif. if id_n notif = i then notif\<lparr>is_read := True\<rparr> else notif)
         (notifications (app s))
   \<and> unreadCount (app (markAsRead i (Resolved ()) s)) = max 0 (unreadCount (app s) - 1)
   \<and> app (markAsRead i Rejected s) = app s
   \<and> notifications (app (markAllAsRead (Resolved ()) s))
       = map (\<lambda>notif. notif\<lparr>is_read := True\<rparr>) (notifications (app s))
   \<and> unreadCount (app (markAllAsRead (Resolved ()) s)) = 0
   \<and> app (markAllAsRead Rejected s) = app s
   \<and> wire (markAsRead i r s) = wire (send (mark_read i) s)
   \<and> wire (markAllAsRead r s) = wire (send mark_all_read s)"
  by (simp add: markAsRead_def markAsRead_settled_def markAsRead_call_def markNotificationAsRead_def
      markAllAsRead_def markAllAsRead_settled_def markAllAsRead_call_def
      markAllNotificationsAsRead_def markAsRead_update_def markAllAsRead_update_def
      split: rest.splits)

theorem local_update_follows_rest_outcome_witness:
  "map is_read (notifications (app (markAsRead 7 (Resolved ()) one_unread))) = [True]
   \<and> unreadCount (app (markAsRead 7 (Resolved ()) one_unread)) = 0
   \<and> wire (markAsRead 7 (Resolved ()) one_unread) = []
   \<and> app (markAsRead 7 Rejected one_unread) = app one_unread
   \<and> app (markAllAsRead Rejected one_unread) = app one_unread"
  using local_update_follows_rest_outcome [of 7 one_unread "Resolved ()"]
  by (simp add: one_unread_def init_def send_def example_notification_def)

text \<open>
  Claim C5 as it is stated fails: an \<^verbatim>\<open>unread_count\<close> event that carries \<open>-1\<close> makes
  the unread count \<open>-1\<close>.
\<close>

theorem negative_unread_count_counterexample:
  "unreadCount (deliver_all [UnreadCountEv (- 1)] empty_store) = - 1
   \<and> unreadCount (deliver_all [UnreadCountEv (- 1)] empty_store) < 0"
  by (simp add: handleUnreadCount_def empty_store_def)

text \<open>
  Claim C5, amended. If the unread count is not negative and every count the server
  reports (in an \<^verbatim>\<open>unread_count\<close> event or to a refresh) is not negative, then after any
  sequence of store events the unread count is not negative; and a successful
  \<^verbatim>\<open>markAsRead\<close> takes the count \<open>c\<close> to \<open>max 0 (c - 1)\<close>.
\<close>

lemma deliver_count_not_negative:
  "0 \<le> unreadCount st \<Longrightarrow> count_not_negative e \<Longrightarrow> 0 \<le> unreadCount (deliver e st)"
  by (cases e rule: reported_count.cases)
    (auto simp: count_not_negative_def handleNotification_def handleNotificationsList_def
      handleConnect_def handleDisconnect_def handleError_def handleUnreadCount_def
      markAsRead_update_def markAllAsRead_update_def split: rest.splits)

lemma deliver_all_count_not_negative:
  "0 \<le> unreadCount st \<Longrightarrow> \<forall>e\<in>set es. count_not_negative e \<Longrightarrow>
   0 \<le> unreadCount (deliver_all es st)"
  by (induction es arbitrary: st) (simp_all add: deliver_count_not_negative)

theorem unread_count_never_negative:
  assumes "0 \<le> unreadCount st" and "\<forall>e\<in>set es. count_not_negative e"
  shows "0 \<le> unreadCount (deliver_all es st)
    \<and> unreadCount (deliver (MarkAsReadSettled i (Resolved ())) (deliver_all es st))
        = max 0 (unreadCount (deliver_all es st) - 1)"
  using deliver_all_count_not_negative[OF assms] by (simp add: markAsRead_update_def)

theorem unread_count_never_negative_witness:
  "0 \<le> unreadCount empty_store
   \<and> list_all count_not_negative
        [UnreadCountEv 1, MarkAsReadSettled 4 (Resolved ()), MarkAsReadSettled 5 (Resolved ()),
         NotificationEv (example_notification 6 False), MarkAllAsReadSettled (Resolved ())]
   \<and> 0 \<le> unreadCount (deliver_all
        [UnreadCountEv 1, MarkAsReadSettled 4 (Resolved ()), MarkAsReadSettled 5 (Resolved ()),
         NotificationEv (example_notification 6 False), MarkAllAsReadSettled (Resolved ())]
        empty_store)
   \<and> unreadCount (deliver_all
        [UnreadCountEv 1, MarkAsReadSettled 4 (Resolved ()), MarkAsReadSettled 5 (Resolved ())]
        empty_store) = 0"
  using unread_count_never_negative
    [of empty_store
        "[UnreadCountEv 1, MarkAsReadSettled 4 (Resolved ()), MarkAsReadSettled 5 (Resolved ()),
          NotificationEv (example_notification 6 False), MarkAllAsReadSettled (Resolved ())]"]
  by (simp add: empty_store_def count_not_negative_def handleUnreadCount_def
      markAsRead_update_def markAllAsRead_update_def handleNotification_def)

text \<open>
  Claim C2 as it is stated fails: the list holds notification 7 with \<^verbatim>\<open>is_read = true\<close>,
  and a \<^verbatim>\<open>notifications_list\<close> snapshot in which notification 7 is unread puts an unread
  notification 7 in the list.
\<close>

theorem snapshot_reverts_read_counterexample:
  "id_n (notifications one_read ! 0) = 7
   \<and> is_read (notifications one_read ! 0)
   \<and> id_n (notifications (deliver (NotificationsListEv [example_notification 7 False]) one_read) ! 0) = 7
   \<and> \<not> is_read (notifications (deliver (NotificationsListEv [example_notification 7 False]) one_read) ! 0)"
  by (simp add: one_read_def handleNotificationsList_def example_notification_def)

text \<open>
  Claim C2, amended. The store itself never makes a notification unread: an id gets an
  unread entry only from a payload of the server. After a push notification the unread
  ids are those of before and that of the payload if the payload is unread; after a
  \<^verbatim>\<open>notifications_list\<close> snapshot or the list of a refresh they are those of the
  payload, whatever was read before. So over any sequence of events whose payloads hold
  read notifications only (in particular over any sequence of \<^verbatim>\<open>markAsRead\<close>,
  \<^verbatim>\<open>markAllAsRead\<close>, \<^verbatim>\<open>unread_count\<close> and connection events) no id gets an unread entry
  that it did not have.
\<close>

lemma deliver_unread_ids:
  "\<forall>n\<in>set (carried e). is_read n \<Longrightarrow> unread_ids (deliver e st) \<subseteq> unread_ids st"
  by (cases e rule: carried.cases)
    (auto simp: unread_ids_def handleNotification_def handleNotificationsList_def
      handleConnect_def handleDisconnect_def handleError_def handleUnreadCount_def
      markAsRead_update_def markAllAsRead_update_def split: rest.splits)

lemma deliver_all_unread_ids:
  "\<forall>e\<in>set es. \<forall>n\<in>set (carried e). is_read n \<Longrightarrow>
   unread_ids (deliver_all es st) \<subseteq> unread_ids st"
proof (induction es arbitrary: st)
  case Nil
  then show ?case by simp
next
  case (Cons e es)
  have "unread_ids (deliver_all es (deliver e st)) \<subseteq> unread_ids (deliver e st)"
    using Cons by simp
  moreover have "unread_ids (deliver e st) \<subseteq> unread_ids st"
    using Cons.prems by (simp add: deliver_unread_ids)
  ultimately show ?case by simp
qed

theorem read_reverts_only_by_server_payload:
  "((\<forall>e\<in>set es. \<forall>n\<in>set (carried e). is_read n) \<longrightarrow>
      unread_ids (deliver_all es st) \<subseteq> unread_ids st)
   \<and> unread_ids (deliver (NotificationEv n) st)
       = (if is_read n then {} else {id_n n}) \<union> unread_ids st
   \<and> unread_ids (deliver (NotificationsListEv l) st)
       = id_n ` {n \<in> set l. \<not> is_read n}
   \<and> unread_ids (deliver (RefreshListSettled (Resolved l)) st)
       = id_n ` {n \<in> set l. \<not> is_read n}"
  using deliver_all_unread_ids[of es st]
  by (auto simp: unread_ids_def handleNotification_def handleNotificationsList_def)

theorem read_reverts_only_by_server_payload_witness:
  "list_all (\<lambda>e. list_all is_read (carried e))
     [MarkAsReadSettled 1 (Resolved ()), UnreadCountEv 2,
      NotificationEv (example_notification 9 True), MarkAsReadSettled 3 Rejected]
   \<and> unread_ids five_notifications = {1, 3, 5}
   \<and> unread_ids (deliver_all
        [MarkAsReadSettled 1 (Resolved ()), UnreadCountEv 2,
         NotificationEv (example_notification 9 True), MarkAsReadSettled 3 Rejected]
        five_notifications) \<subseteq> {1, 3, 5}"
  using read_reverts_only_by_server_payload
    [of "[MarkAsReadSettled 1 (Resolved ()), UnreadCountEv 2,
          NotificationEv (example_notification 9 True), MarkAsReadSettled 3 Rejected]"
        five_notifications]
  by (simp add: unread_ids_def five_notifications_def example_notification_def)

section \<open>The event dispatcher\<close>




section \<open>Disconnecting\<close>

lemma quiet_disconnect: "timer_inv s \<Longrightarrow> quiet (disconnect s)"
  by (simp add: quiet_def disconnect_def Let_def close_socket_def set_readyState_def clear_timers
      split: option.splits)

lemma sockets_disconnect: "length (sockets (disconnect s)) = length (sockets s)"
  by (simp add: disconnect_def Let_def close_socket_def set_readyState_def split: option.splits)

lemma quiet_step:
  assumes "quiet s" and "\<not> is_connect_call e"
  shows "quiet (step e s) \<and> length (sockets (step e s)) = length (sockets s)"
proof (cases e)
  case (Connect uid tok c)
  then show ?thesis using assms by simp
next
  case Disconnect
  then show ?thesis using assms
    by (simp add: quiet_def disconnect_def Let_def close_socket_def set_readyState_def
        clearReconnectTimer_def split: option.splits)
next
  case (Send m)
  then show ?thesis using assms by (simp add: quiet_def)
next
  case (On ev cb)
  then show ?thesis using assms by (simp add: quiet_def on_def Let_def split: option.splits)
next
  case (Off ev cb)
  then show ?thesis using assms by (simp add: quiet_def off_def split: option.splits)
next
  case (SockOpen k)
  then show ?thesis using assms
    by (simp add: quiet_def onopen_def set_readyState_def clearReconnectTimer_def)
next
  case (SockMessage k f)
  then show ?thesis using assms by (simp add: quiet_def onmessage_def split: frame.splits)
next
  case (SockError k err)
  then show ?thesis using assms by (simp add: quiet_def onerror_def)
next
  case (SockClose k code reason)
  then show ?thesis using assms
    by (simp add: quiet_def onclose_def Let_def set_readyState_def truthy_number_def)
next
  case (TimerFire h c)
  then show ?thesis using assms by (simp add: quiet_def)
next
  case (Tick dt)
  then show ?thesis using assms by (simp add: quiet_def)
qed

lemma quiet_run:
  "quiet s \<Longrightarrow> \<forall>e\<in>set es. \<not> is_connect_call e \<Longrightarrow>
   quiet (run es s) \<and> length (sockets (run es s)) = length (sockets s)"
proof (induction es arbitrary: s)
  case Nil
  then show ?case by simp
next
  case (Cons e es)
  then have "quiet (step e s) \<and> length (sockets (step e s)) = length (sockets s)"
    by (simp add: quiet_step)
  with Cons show ?case by simp
qed




section \<open>A constructor that throws\<close>

lemma emit_app:
  "keeps_registered ev d
     (case listeners s ev of None \<Rightarrow> [] | Some eventListeners \<Rightarrow> eventListeners) \<Longrightarrow>
   app (emit ev d s)
     = foldl (\<lambda>w cb. world_after (call cb d w)) (app s)
         (case listeners s ev of None \<Rightarrow> [] | Some eventListeners \<Rightarrow> eventListeners)"
proof (cases "listeners s ev")
  case None
  then show ?thesis by (simp add: emit_def)
next
  case (Some cbs)
  assume "keeps_registered ev d
     (case listeners s ev of None \<Rightarrow> [] | Some eventListeners \<Rightarrow> eventListeners)"
  then show ?thesis using emit_keeps_registered[of s ev cbs d] Some by simp
qed

lemma scheduleReconnect_frame [simp]:
  "ws (scheduleReconnect s) = ws s"
  "listeners (scheduleReconnect s) = listeners s"
  "userId (scheduleReconnect s) = userId s"
  "token (scheduleReconnect s) = token s"
  "isConnecting (scheduleReconnect s) = isConnecting s"
  "sockets (scheduleReconnect s) = sockets s"
  "wire (scheduleReconnect s) = wire s"
  "now (scheduleReconnect s) = now s"
  "app (scheduleReconnect s) = app s"
  by (simp_all add: scheduleReconnect_def Let_def)

lemma onclose_identity [simp]:
  "userId (onclose code reason s) = userId s"
  "token (onclose code reason s) = token s"
  by (simp_all add: onclose_def Let_def)

lemma connect_same_identity:
  "userId s = Some uid \<Longrightarrow> token s = Some tok \<Longrightarrow>
   userId (connect uid tok c s) = Some uid \<and> token (connect uid tok c s) = Some tok"
  by (simp add: connect_def Let_def split: ctor_result.splits)

lemma connect_identity_not_null:
  "userId s \<noteq> None \<Longrightarrow> token s \<noteq> None \<Longrightarrow>
   userId (connect uid tok c s) \<noteq> None \<and> token (connect uid tok c s) \<noteq> None"
  by (simp add: connect_def Let_def split: ctor_result.splits)

lemma reconnect_callback_identity [simp]:
  "userId (reconnect_callback c s) = userId s"
  "token (reconnect_callback c s) = token s"
  using connect_same_identity[of s _ _ c]
  by (auto simp: reconnect_callback_def split: option.splits)

lemma identity_step:
  assumes "\<not> is_disconnect_call e"
  shows "(\<not> is_connect_call e \<longrightarrow>
            userId (step e s) = userId s \<and> token (step e s) = token s)
         \<and> (userId s \<noteq> None \<and> token s \<noteq> None \<longrightarrow>
            userId (step e s) \<noteq> None \<and> token (step e s) \<noteq> None)"
proof (cases e)
  case (Connect uid tok c)
  then show ?thesis using connect_identity_not_null[of s uid tok c] by simp
next
  case Disconnect
  then show ?thesis using assms by simp
next
  case (Send m)
  then show ?thesis by simp
next
  case (On ev cb)
  then show ?thesis by (simp add: on_def Let_def split: option.splits)
next
  case (Off ev cb)
  then show ?thesis by (simp add: off_def split: option.splits)
next
  case (SockOpen k)
  then show ?thesis by (simp add: onopen_def set_readyState_def)
next
  case (SockMessage k f)
  then show ?thesis by (simp add: onmessage_def split: frame.splits)
next
  case (SockError k err)
  then show ?thesis by (simp add: onerror_def)
next
  case (SockClose k code reason)
  then show ?thesis by (simp add: set_readyState_def)
next
  case (TimerFire h c)
  then show ?thesis by (simp split: option.splits)
next
  case (Tick dt)
  then show ?thesis by simp
qed

lemma identity_run:
  "\<forall>e\<in>set es. \<not> is_disconnect_call e \<and> \<not> is_connect_call e \<Longrightarrow>
   userId (run es s) = userId s \<and> token (run es s) = token s"
proof (induction es arbitrary: s)
  case Nil
  then show ?case by simp
next
  case (Cons e es)
  then have "userId (step e s) = userId s \<and> token (step e s) = token s"
    using identity_step[of e s] by simp
  with Cons show ?case by simp
qed

lemma identity_not_null_run:
  "\<forall>e\<in>set es. \<not> is_disconnect_call e \<Longrightarrow> userId s \<noteq> None \<and> token s \<noteq> None \<Longrightarrow>
   userId (run es s) \<noteq> None \<and> token (run es s) \<noteq> None"
proof (induction es arbitrary: s)
  case Nil
  then show ?case by simp
next
  case (Cons e es)
  then have "userId (step e s) \<noteq> None \<and> token (step e s) \<noteq> None"
    using identity_step[of e s] by simp
  with Cons show ?case by simp
qed

text \<open>
  Claim C10. Let \<^verbatim>\<open>connect(uid, tok)\<close> pass its guard and \<^verbatim>\<open>new WebSocket\<close> throw. Then
  the \<^verbatim>\<open>error\<close> event has been emitted (the application state and the registry are those
  that \<^verbatim>\<open>emit\<close> leaves; every callback of \<^verbatim>\<open>error\<close> has been called, in order, if none
  of them unregisters a callback of \<^verbatim>\<open>error\<close>), the connecting flag is off, no socket was
  made, and the stored id and credential are \<open>uid\<close> and \<open>tok\<close>. They stay non-null over
  any later events but a call of \<^verbatim>\<open>disconnect\<close>, and stay \<open>uid\<close> and \<open>tok\<close> if
  \<^verbatim>\<open>connect\<close> is not called either. So when afterwards a socket that is still alive closes
  with a code other than 1000, and \<open>uid\<close> is not 0 and \<open>tok\<close> not empty, one reconnect
  timeout is set, due in 3000 ms, and its callback calls \<^verbatim>\<open>connect(uid, tok)\<close>.
\<close>

theorem failed_construction_keeps_identity:
  assumes "timer_inv s" and "\<not> isConnecting s" and "\<not> isConnected_ws s"
  shows
    "let s1 = connect uid tok (CtorThrows err) s; s2 = run es s1;
         s3 = step (SockClose k code reason) s2
     in userId s1 = Some uid \<and> token s1 = Some tok \<and> \<not> isConnecting s1
        \<and> app s1 = app (emit ''error'' (ErrorInfo err) s)
        \<and> listeners s1 = listeners (emit ''error'' (ErrorInfo err) s)
        \<and> (keeps_registered ''error'' (ErrorInfo err)
              (case listeners s ''error'' of None \<Rightarrow> [] | Some eventListeners \<Rightarrow> eventListeners) \<longrightarrow>
            app s1 = foldl (\<lambda>w cb. world_after (call cb (ErrorInfo err) w)) (app s)
              (case listeners s ''error'' of None \<Rightarrow> [] | Some eventListeners \<Rightarrow> eventListeners))
        \<and> ws s1 = ws s \<and> sockets s1 = sockets s \<and> timers s1 = timers s
        \<and> ((\<forall>e\<in>set es. \<not> is_disconnect_call e) \<longrightarrow>
              userId s2 \<noteq> None \<and> token s2 \<noteq> None)
        \<and> ((\<forall>e\<in>set es. \<not> is_disconnect_call e \<and> \<not> is_connect_call e) \<longrightarrow>
              userId s2 = Some uid \<and> token s2 = Some tok
              \<and> (uid \<noteq> 0 \<and> tok \<noteq> [] \<and> code \<noteq> 1000
                  \<and> k < length (sockets s2) \<and> readyState (sockets s2 ! k) \<noteq> CLOSED \<longrightarrow>
                    timers s3 = [(nextTimer s2, now s2 + 3000)]
                    \<and> reconnectTimer s3 = Some (nextTimer s2)
                    \<and> reconnect_callback c s3 = connect uid tok c s3))"
proof -
  define s1 where "s1 = connect uid tok (CtorThrows err) s"
  define s2 where "s2 = run es s1"
  define s3 where "s3 = step (SockClose k code reason) s2"
  have a: "userId s1 = Some uid \<and> token s1 = Some tok \<and> \<not> isConnecting s1
      \<and> ws s1 = ws s \<and> sockets s1 = sockets s \<and> timers s1 = timers s"
    using assms(2,3) by (simp add: s1_def connect_def)
  let ?pre = "s\<lparr>userId := Some uid, token := Some tok, isConnecting := False,
      console := console s @ [(Error, ''Error creating WebSocket connection:'')]\<rparr>"
  have s1: "s1 = emit ''error'' (ErrorInfo err) ?pre"
    using assms(2,3) by (simp add: s1_def connect_def)
  have b: "app s1 = app (emit ''error'' (ErrorInfo err) s)
      \<and> listeners s1 = listeners (emit ''error'' (ErrorInfo err) s)"
    unfolding s1 by (rule emit_cong) simp_all
  have b': "app s1 = foldl (\<lambda>w cb. world_after (call cb (ErrorInfo err) w)) (app s)
             (case listeners s ''error'' of None \<Rightarrow> [] | Some eventListeners \<Rightarrow> eventListeners)"
    if "keeps_registered ''error'' (ErrorInfo err)
          (case listeners s ''error'' of None \<Rightarrow> [] | Some eventListeners \<Rightarrow> eventListeners)"
    using b emit_app[OF that] by simp
  have inv2: "timer_inv s2"
    using assms(1) by (simp add: s1_def s2_def timer_inv_connect timer_inv_run)
  have c: "userId s2 \<noteq> None \<and> token s2 \<noteq> None" if "\<forall>e\<in>set es. \<not> is_disconnect_call e"
    using identity_not_null_run[OF that, of s1] a by (simp add: s2_def)
  have d: "userId s2 = Some uid \<and> token s2 = Some tok"
    if "\<forall>e\<in>set es. \<not> is_disconnect_call e \<and> \<not> is_connect_call e"
    using identity_run[OF that, of s1] a by (simp add: s2_def)
  have e: "timers s3 = [(nextTimer s2, now s2 + 3000)] \<and> reconnectTimer s3 = Some (nextTimer s2)
      \<and> reconnect_callback c s3 = connect uid tok c s3"
    if id: "userId s2 = Some uid \<and> token s2 = Some tok"
      and h: "uid \<noteq> 0" "tok \<noteq> []" "code \<noteq> 1000"
        "k < length (sockets s2)" "readyState (sockets s2 ! k) \<noteq> CLOSED"
  proof -
    let ?t = "set_readyState k CLOSED s2"
    have s3: "s3 = onclose code reason ?t" using h by (simp add: s3_def)
    have "timer_inv ?t" using inv2 by (simp add: timer_inv_def set_readyState_def)
    moreover have "truthy_number (userId ?t)" "truthy_string (token ?t)"
      using id h by (simp_all add: set_readyState_def truthy_number_def truthy_string_def)
    ultimately have "timers s3 = [(nextTimer ?t, now ?t + 3000)]
        \<and> reconnectTimer s3 = Some (nextTimer ?t)"
      using abnormal_close_schedules_one[of ?t code reason] h(3) by (simp add: s3)
    moreover have "userId s3 = Some uid \<and> token s3 = Some tok"
      using id by (simp add: s3 set_readyState_def)
    then have "reconnect_callback c s3 = connect uid tok c s3"
      using h by (simp add: reconnect_callback_def truthy_number_def truthy_string_def)
    ultimately show ?thesis by (simp add: set_readyState_def)
  qed
  from a b b' c d e show ?thesis
    unfolding Let_def s1_def[symmetric] s2_def[symmetric] s3_def[symmetric] by blast
qed

text \<open>
  The witness: a socket is closing after a manual disconnect when \<^verbatim>\<open>connect(7, tok)\<close> is
  called and the constructor throws; the closing socket then ends with code 1006.
\<close>

theorem failed_construction_keeps_identity_witness:
  "timer_inv (run [Connect 1 ''old'' Constructed, SockOpen 0, Disconnect] (init empty_store))
   \<and> \<not> isConnecting (run [Connect 1 ''old'' Constructed, SockOpen 0, Disconnect] (init empty_store))
   \<and> \<not> isConnected_ws (run [Connect 1 ''old'' Constructed, SockOpen 0, Disconnect] (init empty_store))
   \<and> userId (run [Connect 1 ''old'' Constructed, SockOpen 0, Disconnect,
                  Connect 7 ''tok'' (CtorThrows ''SyntaxError'')] (init empty_store)) = Some 7
   \<and> token (run [Connect 1 ''old'' Constructed, SockOpen 0, Disconnect,
                  Connect 7 ''tok'' (CtorThrows ''SyntaxError'')] (init empty_store)) = Some ''tok''
   \<and> timers (run [Connect 1 ''old'' Constructed, SockOpen 0, Disconnect,
                  Connect 7 ''tok'' (CtorThrows ''SyntaxError''),
                  SockClose 0 1006 []] (init empty_store)) = [(1, 3000)]
   \<and> map url_userId (sockets (run [Connect 1 ''old'' Constructed, SockOpen 0, Disconnect,
                  Connect 7 ''tok'' (CtorThrows ''SyntaxError''),
                  SockClose 0 1006 [], Tick 3000, TimerFire 1 Constructed] (init empty_store)))
       = [1, 7]"
  using failed_construction_keeps_identity
    [of "run [Connect 1 ''old'' Constructed, SockOpen 0, Disconnect] (init empty_store)"
        7 "''tok''" "''SyntaxError''" "[]" 0 1006 "[]" Constructed]
  by (simp add: service_defs timer_inv_def keeps_registered_def)

section \<open>Two defects of the service\<close>

text \<open>
  Claim C3 at a failing input. \<^verbatim>\<open>connect(0, "tok")\<close> stores the id 0 and the credential;
  the socket opens and then closes with code 1006. The test
  \<^verbatim>\<open>this.userId && this.token\<close> of line 62 reads the id 0 as if none were stored: no
  reconnect timeout is set, and 3000 ms later there is still only the closed socket.
\<close>

theorem no_reconnect_for_user_id_zero:
  "userId (run [Connect 0 ''tok'' Constructed, SockOpen 0, SockClose 0 1006 []]
       (init empty_store)) = Some 0
   \<and> token (run [Connect 0 ''tok'' Constructed, SockOpen 0, SockClose 0 1006 []]
       (init empty_store)) = Some ''tok''
   \<and> timers (run [Connect 0 ''tok'' Constructed, SockOpen 0, SockClose 0 1006 []]
       (init empty_store)) = []
   \<and> map readyState (sockets (run [Connect 0 ''tok'' Constructed, SockOpen 0, SockClose 0 1006 [],
       Tick 3000, TimerFire 1 Constructed] (init empty_store))) = [CLOSED]"
  by (simp add: service_defs)

text \<open>
  What of claim C7 holds on every path: \<^verbatim>\<open>connect\<close> changes nothing while the flag is
  set or the current socket is open; and when the socket that opens is the one the
  service holds, one \<^verbatim>\<open>get_notifications\<close> is written to it, the reconnect timeout is
  cleared, the \<^verbatim>\<open>connect\<close> event is emitted, and a further \<^verbatim>\<open>connect\<close> changes
  nothing.
\<close>

lemma connect_is_noop_while_busy:
  "isConnecting s \<or> isConnected_ws s \<Longrightarrow> connect uid tok c s = s"
  by (simp add: connect_def)

lemma open_of_current_socket:
  assumes "ws s = Some k" and "k < length (sockets s)"
    and "readyState (sockets s ! k) = CONNECTING" and "timer_inv s"
  shows "wire (step (SockOpen k) s) = wire s @ [(k, get_notifications)]
    \<and> timers (step (SockOpen k) s) = [] \<and> reconnectTimer (step (SockOpen k) s) = None
    \<and> app (step (SockOpen k) s) = app (emit ''connect'' Null s)
    \<and> connect uid tok c (step (SockOpen k) s) = step (SockOpen k) s"
proof -
  let ?t = "(set_readyState k OPEN s)\<lparr>isConnecting := False\<rparr>"
  have "timer_inv ?t" using assms(4) by (simp add: timer_inv_def set_readyState_def)
  then have t: "timers (clearReconnectTimer ?t) = [] \<and> reconnectTimer (clearReconnectTimer ?t) = None"
    by (rule clear_timers)
  have w: "wire (step (SockOpen k) s) = wire s @ [(k, get_notifications)]"
    using assms(1-3) by (simp add: onopen_def send_def set_readyState_def)
  have o: "isConnected_ws (step (SockOpen k) s)"
    using assms(1-3) by (simp add: onopen_def isConnected_ws_def set_readyState_def)
  have "app (emit ''connect'' Null (clearReconnectTimer ?t)) = app (emit ''connect'' Null s)"
    using emit_cong[of "clearReconnectTimer ?t" s "''connect''" Null]
    by (simp add: set_readyState_def)
  then have a: "app (step (SockOpen k) s) = app (emit ''connect'' Null s)"
    using assms(1-3) by (simp add: onopen_def)
  from t w a connect_is_noop_while_busy[of "step (SockOpen k) s" uid tok c] o assms(2,3)
  show ?thesis by (simp add: onopen_def)
qed

text \<open>
  Claim C7 at a failing input. \<^verbatim>\<open>connect(42, "tok")\<close>, the socket opens, \<^verbatim>\<open>disconnect()\<close>
  and at once \<^verbatim>\<open>connect(42, "tok")\<close> again, as the effect of the provider does when it
  runs again. The close event of the first socket arrives next, with code 1000, and its
  handler sets \<^verbatim>\<open>this.ws\<close> to \<^verbatim>\<open>null\<close>, although \<^verbatim>\<open>this.ws\<close> is the second socket by
  now. When the second socket opens, \<^verbatim>\<open>send\<close> finds no socket: the only
  \<^verbatim>\<open>get_notifications\<close> ever written is the one to the first socket, and the service
  holds no socket while the second one is open.
\<close>

theorem stale_close_drops_get_notifications:
  "wire (run [Connect 42 ''tok'' Constructed, SockOpen 0, Disconnect,
              Connect 42 ''tok'' Constructed, SockClose 0 1000 ''Manual disconnect'',
              SockOpen 1] (init empty_store)) = [(0, get_notifications)]
   \<and> map readyState (sockets (run [Connect 42 ''tok'' Constructed, SockOpen 0, Disconnect,
              Connect 42 ''tok'' Constructed, SockClose 0 1000 ''Manual disconnect'',
              SockOpen 1] (init empty_store))) = [CLOSED, OPEN]
   \<and> ws (run [Connect 42 ''tok'' Constructed, SockOpen 0, Disconnect,
              Connect 42 ''tok'' Constructed, SockClose 0 1000 ''Manual disconnect'',
              SockOpen 1] (init empty_store)) = None
   \<and> console (run [Connect 42 ''tok'' Constructed, SockOpen 0, Disconnect,
              Connect 42 ''tok'' Constructed, SockClose 0 1000 ''Manual disconnect'',
              SockOpen 1] (init empty_store))
       = [(Warn, ''WebSocket not connected, cannot send message:'')]"
  by (simp add: service_defs)

section \<open>Scenarios of the specification\<close>

text \<open>
  The settling of a REST request changes the store of the running system as the store
  event of the same name does.
\<close>

lemma settled_is_delivered:
  "app (markAsRead_settled i r s) = deliver (MarkAsReadSettled i r) (app s)"
  "app (markAllAsRead_settled r s) = deliver (MarkAllAsReadSettled r) (app s)"
  by (simp_all add: markAsRead_settled_def markAllAsRead_settled_def split: rest.splits)

text \<open>
  Scenario A: one \<^verbatim>\<open>get_notifications\<close> after the open, and one socket, although
  \<^verbatim>\<open>connect\<close> was called again before and after the open.
\<close>

lemma scenario_A:
  "wire (run [Connect 42 ''tok'' Constructed, Connect 42 ''tok'' Constructed, SockOpen 0,
              Connect 42 ''tok'' Constructed] (init empty_store)) = [(0, get_notifications)]"
  "sockets (run [Connect 42 ''tok'' Constructed, Connect 42 ''tok'' Constructed, SockOpen 0,
              Connect 42 ''tok'' Constructed] (init empty_store))
     = [\<lparr>readyState = OPEN, url_userId = 42, url_token = ''tok''\<rparr>]"
  by (simp_all add: service_defs)

text \<open>Scenario B: an \<^verbatim>\<open>unread_count\<close> of 5, then a notification with id 9.\<close>

lemma scenario_B:
  "notifications (deliver_all [UnreadCountEv 5, NotificationEv (example_notification 9 False)]
      empty_store) = [example_notification 9 False]"
  "unreadCount (deliver_all [UnreadCountEv 5, NotificationEv (example_notification 9 False)]
      empty_store) = 6"
  by (simp_all add: empty_store_def handleUnreadCount_def handleNotification_def)

text \<open>
  Scenario C: \<^verbatim>\<open>markAllAsRead()\<close> with three unread items, on an open socket and with a
  REST call that resolves.
\<close>

lemma scenario_C:
  "map is_read (notifications (app (markAllAsRead (Resolved ())
      (run [Connect 42 ''tok'' Constructed, SockOpen 0] (init five_notifications)))))
     = [True, True, True, True, True]"
  "unreadCount (app (markAllAsRead (Resolved ())
      (run [Connect 42 ''tok'' Constructed, SockOpen 0] (init five_notifications)))) = 0"
  "wire (markAllAsRead (Resolved ())
      (run [Connect 42 ''tok'' Constructed, SockOpen 0] (init five_notifications)))
     = [(0, get_notifications), (0, mark_all_read)]"
  by (simp_all add: service_defs markAllAsRead_def markAllAsRead_settled_def
      markAllAsRead_call_def markAllNotificationsAsRead_def markAllAsRead_update_def
      five_notifications_def example_notification_def)

end
